theory Spec2Isabelle
  imports Complex_Main "HOL-Library.List_Lexorder" "HOL-Library.Char_ord" "HOL-Library.Sublist"
begin

section \<open>The batch client \<^verbatim>\<open>newClient.py\<close>\<close>

text \<open>
  The script lists a directory, sends every entry whose name ends in \<^verbatim>\<open>.wav\<close> or
  \<^verbatim>\<open>.mp3\<close> to an analysis server and saves each decoded answer as a JSON file.
  This theory embeds the script: the string and path functions it calls, the two
  functions \<^verbatim>\<open>sendRequest\<close> and \<^verbatim>\<open>saveResult\<close>, and the main block with its loop.

  Everything outside the script (the file system, the server, the JSON codec) is an
  environment: a record of functions that answer each call. Each answer may depend on
  the whole history of calls made so far, so every deterministic behaviour of the
  outside world is some environment. The history is the list of calls with their
  outcomes, oldest first; the script's functions take it and return it extended.
  An exception is a value \<open>Inl e\<close>; it ends the run where it is raised, since the script
  has no \<^verbatim>\<open>try\<close>.

  Not modelled: the two \<^verbatim>\<open>print\<close> calls and the wall-clock timing around the request
  (they influence nothing else), and how \<^verbatim>\<open>argparse\<close> reads and converts the
  command-line strings (the model starts from the converted option values).
\<close>

subsection \<open>Python strings and POSIX paths\<close>

text \<open>
  File names and paths are strings. The path functions are those of \<^verbatim>\<open>posixpath\<close>
  (separator \<^verbatim>\<open>/\<close>, no alternative separator), written after their CPython sources.
\<close>

type_synonym path = string

text \<open>\<^verbatim>\<open>s.endswith(suffix)\<close> and \<^verbatim>\<open>s.startswith(prefix)\<close>.\<close>

definition endswith :: "string \<Rightarrow> string \<Rightarrow> bool" where
  "endswith s suffix' =
     (length suffix' \<le> length s \<and> drop (length s - length suffix') s = suffix')"

definition startswith :: "string \<Rightarrow> string \<Rightarrow> bool" where
  "startswith s prefix' = (take (length prefix') s = prefix')"

text \<open>\<^verbatim>\<open>s.rfind(c)\<close> for a one-character \<open>c\<close>: the highest index of \<open>c\<close> in \<open>s\<close>, or \<open>-1\<close>.\<close>

definition rfind :: "string \<Rightarrow> char \<Rightarrow> int" where
  "rfind s c =
     (if c \<in> set s
      then int (length s) - 1 - int (length (takeWhile (\<lambda>x. x \<noteq> c) (rev s)))
      else - 1)"

text \<open>\<^verbatim>\<open>s.rstrip(c)\<close> for a one-character \<open>c\<close>: \<open>s\<close> without its trailing run of \<open>c\<close>.\<close>

definition rstrip :: "string \<Rightarrow> char \<Rightarrow> string" where
  "rstrip s c = rev (dropWhile (\<lambda>x. x = c) (rev s))"

text \<open>The slice \<^verbatim>\<open>s[a:b]\<close>, used with \<open>0 \<le> a \<le> b\<close> only.\<close>

definition slice :: "string \<Rightarrow> int \<Rightarrow> int \<Rightarrow> string" where
  "slice s a b = take (nat (b - a)) (drop (nat a) s)"

text \<open>
  \<^verbatim>\<open>os.path.splitext(p)\<close> is \<^verbatim>\<open>genericpath._splitext(p, '/', None, '.')\<close>:
  \<^verbatim>\<open>
    sepIndex = p.rfind(sep)
    dotIndex = p.rfind(extsep)
    if dotIndex > sepIndex:
        # skip all leading dots
        filenameIndex = sepIndex + 1
        while filenameIndex < dotIndex:
            if p[filenameIndex:filenameIndex+1] != extsep:
                return p[:dotIndex], p[dotIndex:]
            filenameIndex += 1
    return p, p[:0]
  \<close>
  \<open>splitext_loop\<close> is the \<^verbatim>\<open>while\<close> loop: \<open>Some\<close> is its \<^verbatim>\<open>return\<close>, \<open>None\<close> is falling
  out of the loop.
\<close>

function splitext_loop :: "string \<Rightarrow> int \<Rightarrow> int \<Rightarrow> (string \<times> string) option" where
  "splitext_loop p filenameIndex dotIndex =
     (if filenameIndex < dotIndex then
        (if slice p filenameIndex (filenameIndex + 1) \<noteq> ''.''
         then Some (take (nat dotIndex) p, drop (nat dotIndex) p)
         else splitext_loop p (filenameIndex + 1) dotIndex)
      else None)"
  by pat_completeness auto
termination
  by (relation "measure (\<lambda>(p, filenameIndex, dotIndex). nat (dotIndex - filenameIndex))") auto

declare splitext_loop.simps [simp del]

definition os_path_splitext :: "path \<Rightarrow> string \<times> string" where
  "os_path_splitext p =
     (let sepIndex = rfind p CHR ''/'';
          dotIndex = rfind p CHR ''.''
      in if dotIndex > sepIndex
         then (case splitext_loop p (sepIndex + 1) dotIndex of
                 Some r \<Rightarrow> r
               | None \<Rightarrow> (p, ''''))
         else (p, ''''))"

text \<open>
  \<^verbatim>\<open>os.path.join(a, b)\<close> with one component \<open>b\<close>:
  \<^verbatim>\<open>
    path = a
    if b.startswith(sep):                     path = b
    elif not path or path.endswith(sep):      path += b
    else:                                     path += sep + b
    return path
  \<close>
\<close>

definition os_path_join :: "path \<Rightarrow> path \<Rightarrow> path" where
  "os_path_join a b =
     (if startswith b ''/'' then b
      else if a = '''' \<or> endswith a ''/'' then a @ b
      else a @ ''/'' @ b)"

text \<open>
  \<^verbatim>\<open>os.path.dirname(p)\<close> and \<^verbatim>\<open>os.path.basename(p)\<close>:
  \<^verbatim>\<open>
    i = p.rfind(sep) + 1                      i = p.rfind(sep) + 1
    head = p[:i]                              return p[i:]
    if head and head != sep*len(head):
        head = head.rstrip(sep)
    return head
  \<close>
\<close>

definition os_path_dirname :: "path \<Rightarrow> path" where
  "os_path_dirname p =
     (let i = rfind p CHR ''/'' + 1;
          head = take (nat i) p
      in if head \<noteq> '''' \<and> head \<noteq> replicate (length head) CHR ''/''
         then rstrip head CHR ''/''
         else head)"

definition os_path_basename :: "path \<Rightarrow> string" where
  "os_path_basename p = (let i = rfind p CHR ''/'' + 1 in drop (nat i) p)"

text \<open>\<^verbatim>\<open>str(k)\<close> for an integer, as the f-string that builds the URL formats the port.\<close>

function str_nat :: "nat \<Rightarrow> string" where
  "str_nat n =
     (if n < 10 then [''0123456789'' ! n]
      else str_nat (n div 10) @ [''0123456789'' ! (n mod 10)])"
  by pat_completeness auto
termination
  by (relation "measure id") auto

declare str_nat.simps [simp del]

definition str_int :: "int \<Rightarrow> string" where
  "str_int k = (if k < 0 then CHR ''-'' # str_nat (nat (- k)) else str_nat (nat k))"

subsection \<open>Values, requests, errors and the environment\<close>

text \<open>
  The Python values that \<^verbatim>\<open>json.loads\<close> returns and \<^verbatim>\<open>json.dumps\<close> accepts. The script
  never computes with a float, it only passes floats on, so a float is represented by
  the real number it stands for. A dictionary keeps its items in insertion order.
\<close>

datatype py_value =
    PNone
  | PBool bool
  | PInt int
  | PFloat real
  | PStr string
  | PList "py_value list"
  | PDict "(string \<times> py_value) list"

text \<open>
  What \<^verbatim>\<open>requests.post(url, files=multipart_form_data)\<close> sends: the URL, the part
  \<^verbatim>\<open>audio\<close> (a file name and the file's bytes) and the part \<^verbatim>\<open>meta\<close> (no file name, a
  text). What it returns: a status code and the body as text.
\<close>

record request =
  req_url :: string
  req_audio :: "string \<times> string"
  req_meta :: string

record response =
  status_code :: int
  resp_text :: string

text \<open>
  The exceptions of the run: \<open>OSError\<close> from the file system calls,
  \<open>RequestException\<close> from \<^verbatim>\<open>requests.post\<close>, \<open>JSONDecodeError\<close> from \<^verbatim>\<open>json.loads\<close>.
\<close>

datatype error = OSError | RequestException | JSONDecodeError

text \<open>
  A call the script makes on the outside world, with its outcome:
  \<^item> \<open>ListDir d r\<close>: \<^verbatim>\<open>os.listdir(d)\<close> returned the names \<open>r\<close>, or raised (\<open>None\<close>);
  \<^item> \<open>OpenRead p r\<close>: \<^verbatim>\<open>open(p, "rb")\<close> gave a file with content \<open>r\<close>, or raised;
  \<^item> \<open>Post q r\<close>: \<^verbatim>\<open>requests.post\<close> sent \<open>q\<close> and got the response \<open>r\<close>, or raised;
  \<^item> \<open>MakeDirs d exist_ok ok\<close>: \<^verbatim>\<open>os.makedirs(d, exist_ok=exist_ok)\<close> returned (\<open>ok\<close>) or
    raised;
  \<^item> \<open>OpenWrite p ok\<close>: \<^verbatim>\<open>open(p, "w")\<close> created or truncated \<open>p\<close> (\<open>ok\<close>), or raised;
  \<^item> \<open>Dump p t r\<close>: \<^verbatim>\<open>json.dump\<close> wrote the text \<open>t\<close> to the file opened at \<open>p\<close>: all of
    it (\<open>None\<close>), or it raised with only the first \<open>n\<close> characters written (\<open>Some n\<close>).
\<close>

datatype event =
    ListDir path "string list option"
  | OpenRead path "string option"
  | Post request "response option"
  | MakeDirs path bool bool
  | OpenWrite path bool
  | Dump path string "nat option"

text \<open>
  The environment answers each call from the history so far and the call's arguments.
  \<open>json_loads s\<close> is \<open>None\<close> when \<^verbatim>\<open>json.loads(s)\<close> raises; \<open>json_dumps v indent\<close> is the text
  \<^verbatim>\<open>json.dumps(v, indent=indent)\<close>. Both are pure.
\<close>

record env =
  os_listdir :: "event list \<Rightarrow> path \<Rightarrow> string list option"
  open_rb :: "event list \<Rightarrow> path \<Rightarrow> string option"
  requests_post :: "event list \<Rightarrow> request \<Rightarrow> response option"
  os_makedirs :: "event list \<Rightarrow> path \<Rightarrow> bool \<Rightarrow> bool"
  open_w :: "event list \<Rightarrow> path \<Rightarrow> bool"
  file_write :: "event list \<Rightarrow> path \<Rightarrow> string \<Rightarrow> nat option"
  json_loads :: "string \<Rightarrow> py_value option"
  json_dumps :: "py_value \<Rightarrow> nat option \<Rightarrow> string"

subsection \<open>The command line\<close>

text \<open>
  \<open>cli\<close> holds the options given on the command line, converted by their
  \<^verbatim>\<open>type=\<close> functions: \<open>None\<close> is an option that was not given. \<open>parse_args\<close> fills in
  the defaults of the \<^verbatim>\<open>add_argument\<close> calls. The defaults of \<^verbatim>\<open>--lat\<close> and \<^verbatim>\<open>--lon\<close> are
  the integer \<open>-1\<close> (argparse converts only string defaults), a given value is a float.
\<close>

record cli =
  cli_host :: "string option"
  cli_port :: "int option"
  cli_i :: "string option"
  cli_o :: "string option"
  cli_lat :: "real option"
  cli_lon :: "real option"
  cli_week :: "int option"
  cli_overlap :: "real option"
  cli_sensitivity :: "real option"
  cli_pmode :: "string option"
  cli_num_results :: "int option"
  cli_sf_thresh :: "real option"
  cli_save :: bool

record args =
  args_host :: string
  args_port :: int
  args_i :: string
  args_o :: string
  args_lat :: py_value
  args_lon :: py_value
  args_week :: int
  args_overlap :: real
  args_sensitivity :: real
  args_pmode :: string
  args_num_results :: int
  args_sf_thresh :: real
  args_save :: bool

definition parse_args :: "cli \<Rightarrow> args" where
  "parse_args c =
     \<lparr> args_host = (case cli_host c of None \<Rightarrow> ''localhost'' | Some v \<Rightarrow> v),
       args_port = (case cli_port c of None \<Rightarrow> 8080 | Some v \<Rightarrow> v),
       args_i = (case cli_i c of None \<Rightarrow> ''example/'' | Some v \<Rightarrow> v),
       args_o = (case cli_o c of None \<Rightarrow> '''' | Some v \<Rightarrow> v),
       args_lat = (case cli_lat c of None \<Rightarrow> PInt (- 1) | Some v \<Rightarrow> PFloat v),
       args_lon = (case cli_lon c of None \<Rightarrow> PInt (- 1) | Some v \<Rightarrow> PFloat v),
       args_week = (case cli_week c of None \<Rightarrow> - 1 | Some v \<Rightarrow> v),
       args_overlap = (case cli_overlap c of None \<Rightarrow> 0.0 | Some v \<Rightarrow> v),
       args_sensitivity = (case cli_sensitivity c of None \<Rightarrow> 1.0 | Some v \<Rightarrow> v),
       args_pmode = (case cli_pmode c of None \<Rightarrow> ''avg'' | Some v \<Rightarrow> v),
       args_num_results = (case cli_num_results c of None \<Rightarrow> 5 | Some v \<Rightarrow> v),
       args_sf_thresh = (case cli_sf_thresh c of None \<Rightarrow> 0.03 | Some v \<Rightarrow> v),
       args_save = cli_save c \<rparr>"

subsection \<open>The functions of the script\<close>

text \<open>
  \<^verbatim>\<open>sendRequest(host, port, fpath, mdata)\<close>: opens the file, posts it with the metadata
  and decodes the response text. The status code is not read.
\<close>

definition sendRequest ::
  "env \<Rightarrow> event list \<Rightarrow> string \<Rightarrow> int \<Rightarrow> path \<Rightarrow> string \<Rightarrow> (error + py_value) \<times> event list" where
  "sendRequest env tr host port fpath mdata =
     (let url = ''http://'' @ host @ '':'' @ str_int port @ ''/analyze'' in
      (case open_rb env tr fpath of
         None \<Rightarrow> (Inl OSError, tr @ [OpenRead fpath None])
       | Some audio_file \<Rightarrow>
           (let tr1 = tr @ [OpenRead fpath (Some audio_file)];
                multipart_form_data =
                  \<lparr> req_url = url,
                    req_audio = (os_path_basename fpath, audio_file),
                    req_meta = mdata \<rparr>
            in (case requests_post env tr1 multipart_form_data of
                  None \<Rightarrow> (Inl RequestException, tr1 @ [Post multipart_form_data None])
                | Some response \<Rightarrow>
                    (let tr2 = tr1 @ [Post multipart_form_data (Some response)]
                     in (case json_loads env (resp_text response) of
                           None \<Rightarrow> (Inl JSONDecodeError, tr2)
                         | Some data \<Rightarrow> (Inr data, tr2)))))))"

text \<open>
  \<^verbatim>\<open>saveResult(data, fpath)\<close>: makes the directory of \<open>fpath\<close>, opens \<open>fpath\<close> for writing
  and dumps \<open>data\<close> into it with \<^verbatim>\<open>indent=4\<close>.
\<close>

definition saveResult ::
  "env \<Rightarrow> event list \<Rightarrow> py_value \<Rightarrow> path \<Rightarrow> (error + unit) \<times> event list" where
  "saveResult env tr data fpath =
     (let dir_path = os_path_dirname fpath in
      if \<not> os_makedirs env tr dir_path True
      then (Inl OSError, tr @ [MakeDirs dir_path True False])
      else
        (let tr1 = tr @ [MakeDirs dir_path True True] in
         if \<not> open_w env tr1 fpath
         then (Inl OSError, tr1 @ [OpenWrite fpath False])
         else
           (let tr2 = tr1 @ [OpenWrite fpath True];
                t = json_dumps env data (Some 4)
            in (case file_write env tr2 fpath t of
                  Some n \<Rightarrow> (Inl OSError, tr2 @ [Dump fpath t (Some n)])
                | None \<Rightarrow> (Inr (), tr2 @ [Dump fpath t None])))))"

text \<open>The main block: the metadata dictionary and the two directories.\<close>

definition mdata :: "args \<Rightarrow> py_value" where
  "mdata a =
     PDict [ (''lat'', args_lat a),
             (''lon'', args_lon a),
             (''week'', PInt (args_week a)),
             (''overlap'', PFloat (args_overlap a)),
             (''sensitivity'', PFloat (args_sensitivity a)),
             (''sf_thresh'', PFloat (args_sf_thresh a)),
             (''pmode'', PStr (args_pmode a)),
             (''num_results'', PInt (args_num_results a)),
             (''save'', PBool (args_save a)) ]"

definition input_directory :: "args \<Rightarrow> path" where
  "input_directory a = args_i a"

definition output_directory :: "args \<Rightarrow> path" where
  "output_directory a = (if args_o a \<noteq> '''' then args_o a else input_directory a)"

text \<open>The test of line 133, and the two paths the loop body builds for an entry.\<close>

definition is_audio_file :: "string \<Rightarrow> bool" where
  "is_audio_file audio_file = (endswith audio_file ''.wav'' \<or> endswith audio_file ''.mp3'')"

definition audio_file_path :: "args \<Rightarrow> string \<Rightarrow> path" where
  "audio_file_path a audio_file = os_path_join (input_directory a) audio_file"

definition result_file_name :: "string \<Rightarrow> string" where
  "result_file_name audio_file = fst (os_path_splitext audio_file) @ ''.BirdNET.results.json''"

definition result_file_path :: "args \<Rightarrow> string \<Rightarrow> path" where
  "result_file_path a audio_file = os_path_join (output_directory a) (result_file_name audio_file)"

text \<open>The body of the loop for an entry that passed the test (lines 135 to 147).\<close>

definition loop_body :: "env \<Rightarrow> args \<Rightarrow> event list \<Rightarrow> string \<Rightarrow> (error + unit) \<times> event list" where
  "loop_body env a tr audio_file =
     (case sendRequest env tr (args_host a) (args_port a) (audio_file_path a audio_file)
             (json_dumps env (mdata a) None) of
        (Inl e, tr1) \<Rightarrow> (Inl e, tr1)
      | (Inr data, tr1) \<Rightarrow> saveResult env tr1 data (result_file_path a audio_file))"

text \<open>The \<^verbatim>\<open>for\<close> loop over the listing (lines 131 to 147).\<close>

fun for_loop :: "env \<Rightarrow> args \<Rightarrow> string list \<Rightarrow> event list \<Rightarrow> (error + unit) \<times> event list" where
  "for_loop env a [] tr = (Inr (), tr)"
| "for_loop env a (audio_file # rest) tr =
     (if is_audio_file audio_file then
        (case loop_body env a tr audio_file of
           (Inl e, tr1) \<Rightarrow> (Inl e, tr1)
         | (Inr _, tr1) \<Rightarrow> for_loop env a rest tr1)
      else for_loop env a rest tr)"

text \<open>The whole run, from the parsed command line.\<close>

definition main :: "env \<Rightarrow> cli \<Rightarrow> (error + unit) \<times> event list" where
  "main env argv =
     (let a = parse_args argv in
      (case os_listdir env [] (input_directory a) of
         None \<Rightarrow> (Inl OSError, [ListDir (input_directory a) None])
       | Some names \<Rightarrow>
           for_loop env a names [ListDir (input_directory a) (Some names)]))"

subsection \<open>What a history shows\<close>

text \<open>
  The requests sent, the files opened for reading, the listings made, the files created
  or truncated by a successful \<^verbatim>\<open>open(p, "w")\<close>, and the files written completely with
  their text, each in the order of the history.
\<close>

fun posts :: "event list \<Rightarrow> request list" where
  "posts [] = []"
| "posts (Post q r # es) = q # posts es"
| "posts (e # es) = posts es"

fun opened :: "event list \<Rightarrow> path list" where
  "opened [] = []"
| "opened (OpenRead p r # es) = p # opened es"
| "opened (e # es) = opened es"

fun listed :: "event list \<Rightarrow> path list" where
  "listed [] = []"
| "listed (ListDir d r # es) = d # listed es"
| "listed (e # es) = listed es"

fun created :: "event list \<Rightarrow> path list" where
  "created [] = []"
| "created (OpenWrite p True # es) = p # created es"
| "created (e # es) = created es"

fun dumped :: "event list \<Rightarrow> (path \<times> string) list" where
  "dumped [] = []"
| "dumped (Dump p t None # es) = (p, t) # dumped es"
| "dumped (e # es) = dumped es"

text \<open>
  The content of the files the run has written, after a history: a successful
  \<^verbatim>\<open>open(p, "w")\<close> leaves \<open>p\<close> empty, a complete dump leaves its text, a dump that raised
  leaves the characters written before. \<open>None\<close> is a path the run has not written.
\<close>

definition write_effect :: "(path \<rightharpoonup> string) \<Rightarrow> event \<Rightarrow> (path \<rightharpoonup> string)" where
  "write_effect d e =
     (case e of
        OpenWrite p ok \<Rightarrow> (if ok then d(p \<mapsto> '''') else d)
      | Dump p t r \<Rightarrow> (case r of None \<Rightarrow> d(p \<mapsto> t) | Some n \<Rightarrow> d(p \<mapsto> take n t))
      | _ \<Rightarrow> d)"

definition disk :: "event list \<Rightarrow> (path \<rightharpoonup> string)" where
  "disk tr = foldl write_effect Map.empty tr"

text \<open>
  The request the loop body builds for the entry \<open>f\<close> when the opened file has the
  content \<open>c\<close>: what \<open>sendRequest\<close> posts when called as in line 138.
\<close>

definition the_request :: "env \<Rightarrow> args \<Rightarrow> string \<Rightarrow> string \<Rightarrow> request" where
  "the_request env a f c =
     \<lparr> req_url = ''http://'' @ args_host a @ '':'' @ str_int (args_port a) @ ''/analyze'',
       req_audio = (os_path_basename (audio_file_path a f), c),
       req_meta = json_dumps env (mdata a) None \<rparr>"

subsection \<open>Two concrete runs\<close>

text \<open>
  A command line with no option, and an environment in which every call succeeds: the
  directory \<^verbatim>\<open>example/\<close> lists five entries in the order given, the server answers
  \<^verbatim>\<open>[]\<close> with status 200. Its JSON codec knows the empty list only, which is all the run
  decodes and dumps.
\<close>

definition no_options :: cli where
  "no_options =
     \<lparr> cli_host = None, cli_port = None, cli_i = None, cli_o = None, cli_lat = None,
       cli_lon = None, cli_week = None, cli_overlap = None, cli_sensitivity = None,
       cli_pmode = None, cli_num_results = None, cli_sf_thresh = None, cli_save = False \<rparr>"

definition example_listing :: "string list" where
  "example_listing = [''b.wav'', ''notes.txt'', ''a.mp3'', ''a.wav'', ''c.wav'']"

definition example_env :: env where
  "example_env =
     \<lparr> os_listdir = (\<lambda>tr d. if d = ''example/'' then Some example_listing else None),
       open_rb = (\<lambda>tr p. Some ''RIFF''),
       requests_post = (\<lambda>tr q. Some \<lparr> status_code = 200, resp_text = ''[]'' \<rparr>),
       os_makedirs = (\<lambda>tr d exist_ok. True),
       open_w = (\<lambda>tr p. True),
       file_write = (\<lambda>tr p t. None),
       json_loads = (\<lambda>s. if s = ''[]'' then Some (PList []) else None),
       json_dumps = (\<lambda>v indent. case v of PList [] \<Rightarrow> ''[]'' | _ \<Rightarrow> ''{}'') \<rparr>"

definition example_trace :: "event list" where
  "example_trace =
     [ ListDir ''example/'' (Some [''b.wav'', ''notes.txt'', ''a.mp3'', ''a.wav'', ''c.wav'']),
       OpenRead ''example/b.wav'' (Some ''RIFF''),
       Post \<lparr> req_url = ''http://localhost:8080/analyze'', req_audio = (''b.wav'', ''RIFF''),
              req_meta = ''{}'' \<rparr>
            (Some \<lparr> status_code = 200, resp_text = ''[]'' \<rparr>),
       MakeDirs ''example'' True True,
       OpenWrite ''example/b.BirdNET.results.json'' True,
       Dump ''example/b.BirdNET.results.json'' ''[]'' None,
       OpenRead ''example/a.mp3'' (Some ''RIFF''),
       Post \<lparr> req_url = ''http://localhost:8080/analyze'', req_audio = (''a.mp3'', ''RIFF''),
              req_meta = ''{}'' \<rparr>
            (Some \<lparr> status_code = 200, resp_text = ''[]'' \<rparr>),
       MakeDirs ''example'' True True,
       OpenWrite ''example/a.BirdNET.results.json'' True,
       Dump ''example/a.BirdNET.results.json'' ''[]'' None,
       OpenRead ''example/a.wav'' (Some ''RIFF''),
       Post \<lparr> req_url = ''http://localhost:8080/analyze'', req_audio = (''a.wav'', ''RIFF''),
              req_meta = ''{}'' \<rparr>
            (Some \<lparr> status_code = 200, resp_text = ''[]'' \<rparr>),
       MakeDirs ''example'' True True,
       OpenWrite ''example/a.BirdNET.results.json'' True,
       Dump ''example/a.BirdNET.results.json'' ''[]'' None,
       OpenRead ''example/c.wav'' (Some ''RIFF''),
       Post \<lparr> req_url = ''http://localhost:8080/analyze'', req_audio = (''c.wav'', ''RIFF''),
              req_meta = ''{}'' \<rparr>
            (Some \<lparr> status_code = 200, resp_text = ''[]'' \<rparr>),
       MakeDirs ''example'' True True,
       OpenWrite ''example/c.BirdNET.results.json'' True,
       Dump ''example/c.BirdNET.results.json'' ''[]'' None ]"

text \<open>
  The same environment, but a dump into a file that the run has already written
  completely raises before a character is written (a full disk, say). The run below
  reaches that at \<^verbatim>\<open>a.wav\<close>, whose result file is the one of \<^verbatim>\<open>a.mp3\<close>.
\<close>

definition failing_env :: env where
  "failing_env =
     example_env \<lparr> file_write := (\<lambda>tr p t. if p \<in> fst ` set (dumped tr) then Some 0 else None) \<rparr>"

definition trace_before_failure :: "event list" where
  "trace_before_failure =
     [ ListDir ''example/'' (Some [''b.wav'', ''notes.txt'', ''a.mp3'', ''a.wav'', ''c.wav'']),
       OpenRead ''example/b.wav'' (Some ''RIFF''),
       Post \<lparr> req_url = ''http://localhost:8080/analyze'', req_audio = (''b.wav'', ''RIFF''),
              req_meta = ''{}'' \<rparr>
            (Some \<lparr> status_code = 200, resp_text = ''[]'' \<rparr>),
       MakeDirs ''example'' True True,
       OpenWrite ''example/b.BirdNET.results.json'' True,
       Dump ''example/b.BirdNET.results.json'' ''[]'' None,
       OpenRead ''example/a.mp3'' (Some ''RIFF''),
       Post \<lparr> req_url = ''http://localhost:8080/analyze'', req_audio = (''a.mp3'', ''RIFF''),
              req_meta = ''{}'' \<rparr>
            (Some \<lparr> status_code = 200, resp_text = ''[]'' \<rparr>),
       MakeDirs ''example'' True True,
       OpenWrite ''example/a.BirdNET.results.json'' True,
       Dump ''example/a.BirdNET.results.json'' ''[]'' None ]"

definition failing_trace :: "event list" where
  "failing_trace =
     trace_before_failure @
     [
       OpenRead ''example/a.wav'' (Some ''RIFF''),
       Post \<lparr> req_url = ''http://localhost:8080/analyze'', req_audio = (''a.wav'', ''RIFF''),
              req_meta = ''{}'' \<rparr>
            (Some \<lparr> status_code = 200, resp_text = ''[]'' \<rparr>),
       MakeDirs ''example'' True True,
       OpenWrite ''example/a.BirdNET.results.json'' True,
       Dump ''example/a.BirdNET.results.json'' ''[]'' (Some 0) ]"

section \<open>Facts about the string and path functions\<close>

lemma endswith_iff: "endswith s t \<longleftrightarrow> (\<exists>pre. s = pre @ t)"
proof
  assume "endswith s t"
  then have "s = take (length s - length t) s @ t"
    by (metis append_take_drop_id endswith_def)
  then show "\<exists>pre. s = pre @ t" ..
next
  assume "\<exists>pre. s = pre @ t"
  then show "endswith s t" by (auto simp: endswith_def)
qed

lemma rfind_notin: "c \<notin> set s \<Longrightarrow> rfind s c = - 1"
  by (simp add: rfind_def)

lemma rfind_last: "c \<notin> set post \<Longrightarrow> rfind (pre @ c # post) c = int (length pre)"
proof -
  assume a: "c \<notin> set post"
  have "takeWhile (\<lambda>x. x \<noteq> c) (rev post @ c # rev pre) = rev post"
    using a by (subst takeWhile_tail) (auto simp: takeWhile_eq_all_conv)
  then show ?thesis by (simp add: rfind_def)
qed


text \<open>The loop of \<open>splitext\<close> returns exactly when some character it visits is not a dot.\<close>

lemma splitext_loop_eq:
  "splitext_loop p i d =
     (if \<exists>k. i \<le> k \<and> k < d \<and> slice p k (k + 1) \<noteq> ''.''
      then Some (take (nat d) p, drop (nat d) p) else None)"
proof (induction p i d rule: splitext_loop.induct)
  case (1 p i d)
  show ?case
  proof (cases "i < d")
    case False
    then show ?thesis by (subst splitext_loop.simps) auto
  next
    case True
    note lt = this
    show ?thesis
    proof (cases "slice p i (i + 1) \<noteq> ''.''")
      case True
      with lt show ?thesis by (subst splitext_loop.simps) auto
    next
      case False
      have "(\<exists>k. i \<le> k \<and> k < d \<and> slice p k (k + 1) \<noteq> ''.'') =
            (\<exists>k. i + 1 \<le> k \<and> k < d \<and> slice p k (k + 1) \<noteq> ''.'')"
      proof
        assume "\<exists>k. i \<le> k \<and> k < d \<and> slice p k (k + 1) \<noteq> ''.''"
        then obtain k where k: "i \<le> k" "k < d" "slice p k (k + 1) \<noteq> ''.''" by blast
        with False have "k \<noteq> i" by auto
        with k have "i + 1 \<le> k \<and> k < d \<and> slice p k (k + 1) \<noteq> ''.''" by simp
        then show "\<exists>k. i + 1 \<le> k \<and> k < d \<and> slice p k (k + 1) \<noteq> ''.''" by blast
      next
        assume "\<exists>k. i + 1 \<le> k \<and> k < d \<and> slice p k (k + 1) \<noteq> ''.''"
        then obtain k where "i + 1 \<le> k \<and> k < d \<and> slice p k (k + 1) \<noteq> ''.''" by blast
        then have "i \<le> k \<and> k < d \<and> slice p k (k + 1) \<noteq> ''.''" by simp
        then show "\<exists>k. i \<le> k \<and> k < d \<and> slice p k (k + 1) \<noteq> ''.''" by blast
      qed
      with lt False "1.IH" show ?thesis by (subst splitext_loop.simps) simp
    qed
  qed
qed



lemma splitext_root_subset: "set (fst (os_path_splitext p)) \<subseteq> set p"
proof -
  have "fst (os_path_splitext p) = p \<or> (\<exists>n. fst (os_path_splitext p) = take n p)"
    by (auto simp: os_path_splitext_def Let_def splitext_loop_eq)
  then show ?thesis by (auto dest: in_set_takeD)
qed

lemma result_file_name_no_sep:
  "CHR ''/'' \<notin> set f \<Longrightarrow> CHR ''/'' \<notin> set (result_file_name f)"
  using splitext_root_subset[of f] by (auto simp: result_file_name_def)

text \<open>Joining a directory and a name without a separator, and taking the result apart.\<close>

lemma join_form:
  assumes "CHR ''/'' \<notin> set f"
  shows "(d = '''' \<and> os_path_join d f = f) \<or>
         (\<exists>h. os_path_join d f = h @ CHR ''/'' # f \<and>
              (d = h @ ''/'' \<or> (d = h \<and> \<not> endswith d ''/'')))"
proof -
  have ns: "\<not> startswith f ''/''"
    using assms by (cases f) (auto simp: startswith_def)
  show ?thesis
  proof (cases "d = ''''")
    case True
    with ns show ?thesis by (simp add: os_path_join_def)
  next
    case False
    show ?thesis
    proof (cases "endswith d ''/''")
      case True
      then obtain h where h: "d = h @ ''/''" by (auto simp: endswith_iff)
      with ns True have "os_path_join d f = h @ CHR ''/'' # f" by (simp add: os_path_join_def)
      with h show ?thesis by blast
    next
      case e: False
      with ns False have "os_path_join d f = d @ CHR ''/'' # f" by (simp add: os_path_join_def)
      with e show ?thesis by blast
    qed
  qed
qed

lemma nat_int_Suc: "nat (int n + 1) = Suc n"
  by simp

lemma basename_join:
  assumes "CHR ''/'' \<notin> set f"
  shows "os_path_basename (os_path_join d f) = f"
proof -
  from join_form[OF assms, of d] show ?thesis
  proof
    assume "d = '''' \<and> os_path_join d f = f"
    then have "os_path_join d f = f" by blast
    then show ?thesis using assms by (simp add: os_path_basename_def rfind_notin)
  next
    assume "\<exists>h. os_path_join d f = h @ CHR ''/'' # f \<and>
              (d = h @ ''/'' \<or> (d = h \<and> \<not> endswith d ''/''))"
    then obtain h where "os_path_join d f = h @ CHR ''/'' # f" by blast
    then show ?thesis
      using assms by (simp add: os_path_basename_def rfind_last nat_int_Suc del: of_nat_Suc)
  qed
qed

lemma rstrip_snoc: "rstrip (s @ [c]) c = rstrip s c"
  by (simp add: rstrip_def)

lemma all_sep_snoc:
  "(h @ ''/'' = replicate (Suc (length h)) CHR ''/'') = (h = replicate (length h) CHR ''/'')"
  by (simp add: replicate_append_same[symmetric])

lemma dirname_join:
  assumes "CHR ''/'' \<notin> set f"
  shows "os_path_dirname (os_path_join d f) =
           (if d = replicate (length d) CHR ''/'' then d else rstrip d CHR ''/'')"
proof -
  from join_form[OF assms, of d] show ?thesis
  proof
    assume "d = '''' \<and> os_path_join d f = f"
    then have e: "d = ''''" "os_path_join d f = f" by blast+
    show ?thesis unfolding e(2) using assms e(1) by (simp add: os_path_dirname_def rfind_notin)
  next
    assume "\<exists>h. os_path_join d f = h @ CHR ''/'' # f \<and>
              (d = h @ ''/'' \<or> (d = h \<and> \<not> endswith d ''/''))"
    then obtain h where j: "os_path_join d f = h @ CHR ''/'' # f"
      and d: "d = h @ ''/'' \<or> (d = h \<and> \<not> endswith d ''/'')" by blast
    have head: "take (nat (rfind (h @ CHR ''/'' # f) CHR ''/'' + 1)) (h @ CHR ''/'' # f) = h @ ''/''"
      using assms by (simp add: rfind_last nat_int_Suc del: of_nat_Suc)
    have dn: "os_path_dirname (os_path_join d f) =
                (if h = replicate (length h) CHR ''/'' then h @ ''/'' else rstrip h CHR ''/'')"
      unfolding j os_path_dirname_def Let_def head
      using all_sep_snoc[of h] rstrip_snoc[of h "CHR ''/''"] by simp
    from d show ?thesis
    proof
      assume "d = h @ ''/''"
      then show ?thesis using dn all_sep_snoc[of h] rstrip_snoc[of h "CHR ''/''"] by simp
    next
      assume dh: "d = h \<and> \<not> endswith d ''/''"
      have "h \<noteq> replicate (length h) CHR ''/'' \<or> h = ''''"
      proof (cases h rule: rev_cases)
        case Nil
        then show ?thesis by simp
      next
        case (snoc ys y)
        with dh have "y \<noteq> CHR ''/''" by (auto simp: endswith_def)
        with snoc have "h \<noteq> replicate (length h) CHR ''/''"
          by (metis in_set_replicate last_in_set last_snoc snoc_eq_iff_butlast)
        then show ?thesis by simp
      qed
      moreover have "h \<noteq> ''''"
      proof
        assume "h = ''''"
        with j have "os_path_join d f = CHR ''/'' # f" by simp
        moreover from dh \<open>h = ''''\<close> assms have "os_path_join d f = f"
          by (cases f) (auto simp: os_path_join_def startswith_def)
        ultimately show False by simp
      qed
      ultimately show ?thesis using dn dh by simp
    qed
  qed
qed


section \<open>Facts about histories and the steps of a run\<close>

lemma posts_append [simp]: "posts (xs @ ys) = posts xs @ posts ys"
  by (induction xs rule: posts.induct) auto

lemma opened_append [simp]: "opened (xs @ ys) = opened xs @ opened ys"
  by (induction xs rule: opened.induct) auto

lemma listed_append [simp]: "listed (xs @ ys) = listed xs @ listed ys"
  by (induction xs rule: listed.induct) auto

lemma created_append [simp]: "created (xs @ ys) = created xs @ created ys"
  by (induction xs rule: created.induct) auto

lemma dumped_append [simp]: "dumped (xs @ ys) = dumped xs @ dumped ys"
  by (induction xs rule: dumped.induct) auto

lemma disk_append: "disk (xs @ ys) = foldl write_effect (disk xs) ys"
  by (simp add: disk_def)

text \<open>
  The ways \<open>sendRequest\<close> and \<open>saveResult\<close> can go, each with the calls it adds to the
  history.
\<close>

lemma sendRequest_shape:
  obtains
    (open_failed) "sendRequest env tr h p fpath md = (Inl OSError, tr @ [OpenRead fpath None])"
  | (post_failed) c where
      "sendRequest env tr h p fpath md =
         (Inl RequestException,
          tr @ [OpenRead fpath (Some c),
                Post \<lparr>req_url = ''http://'' @ h @ '':'' @ str_int p @ ''/analyze'',
                      req_audio = (os_path_basename fpath, c), req_meta = md\<rparr> None])"
  | (decode_failed) c resp where
      "json_loads env (resp_text resp) = None"
      "sendRequest env tr h p fpath md =
         (Inl JSONDecodeError,
          tr @ [OpenRead fpath (Some c),
                Post \<lparr>req_url = ''http://'' @ h @ '':'' @ str_int p @ ''/analyze'',
                      req_audio = (os_path_basename fpath, c), req_meta = md\<rparr> (Some resp)])"
  | (ok) c resp v where
      "json_loads env (resp_text resp) = Some v"
      "sendRequest env tr h p fpath md =
         (Inr v,
          tr @ [OpenRead fpath (Some c),
                Post \<lparr>req_url = ''http://'' @ h @ '':'' @ str_int p @ ''/analyze'',
                      req_audio = (os_path_basename fpath, c), req_meta = md\<rparr> (Some resp)])"
proof (cases "open_rb env tr fpath")
  case None
  then show ?thesis using open_failed by (simp add: sendRequest_def)
next
  case (Some c)
  note c = this
  let ?q = "\<lparr>req_url = ''http://'' @ h @ '':'' @ str_int p @ ''/analyze'',
             req_audio = (os_path_basename fpath, c), req_meta = md\<rparr>"
  show ?thesis
  proof (cases "requests_post env (tr @ [OpenRead fpath (Some c)]) ?q")
    case None
    with c show ?thesis using post_failed[of c] by (simp add: sendRequest_def)
  next
    case (Some resp)
    note resp = this
    show ?thesis
    proof (cases "json_loads env (resp_text resp)")
      case None
      with c resp show ?thesis using decode_failed[of resp c] by (simp add: sendRequest_def)
    next
      case (Some v)
      with c resp show ?thesis using ok[of resp v c] by (simp add: sendRequest_def)
    qed
  qed
qed

lemma saveResult_shape:
  obtains
    (makedirs_failed)
      "saveResult env tr v fpath = (Inl OSError, tr @ [MakeDirs (os_path_dirname fpath) True False])"
  | (open_w_failed)
      "saveResult env tr v fpath =
         (Inl OSError, tr @ [MakeDirs (os_path_dirname fpath) True True, OpenWrite fpath False])"
  | (dump_failed) n where
      "saveResult env tr v fpath =
         (Inl OSError,
          tr @ [MakeDirs (os_path_dirname fpath) True True, OpenWrite fpath True,
                Dump fpath (json_dumps env v (Some 4)) (Some n)])"
  | (ok)
      "saveResult env tr v fpath =
         (Inr (),
          tr @ [MakeDirs (os_path_dirname fpath) True True, OpenWrite fpath True,
                Dump fpath (json_dumps env v (Some 4)) None])"
proof (cases "os_makedirs env tr (os_path_dirname fpath) True")
  case False
  then show ?thesis using makedirs_failed by (simp add: saveResult_def)
next
  case True
  note m = this
  show ?thesis
  proof (cases "open_w env (tr @ [MakeDirs (os_path_dirname fpath) True True]) fpath")
    case False
    with m show ?thesis using open_w_failed by (simp add: saveResult_def)
  next
    case True
    note w = this
    show ?thesis
    proof (cases "file_write env
                    (tr @ [MakeDirs (os_path_dirname fpath) True True, OpenWrite fpath True])
                    fpath (json_dumps env v (Some 4))")
      case None
      with m w show ?thesis using ok by (simp add: saveResult_def)
    next
      case (Some n)
      with m w show ?thesis using dump_failed[of n] by (simp add: saveResult_def)
    qed
  qed
qed

text \<open>
  The seven ways the loop body can go for an entry \<open>f\<close>: six failures, named after the
  call that raised, and success.
\<close>

lemma loop_body_shape:
  obtains
    (open_failed)
      "loop_body env a tr f = (Inl OSError, tr @ [OpenRead (audio_file_path a f) None])"
  | (post_failed) c where
      "loop_body env a tr f =
         (Inl RequestException,
          tr @ [OpenRead (audio_file_path a f) (Some c), Post (the_request env a f c) None])"
  | (decode_failed) c resp where
      "json_loads env (resp_text resp) = None"
      "loop_body env a tr f =
         (Inl JSONDecodeError,
          tr @ [OpenRead (audio_file_path a f) (Some c), Post (the_request env a f c) (Some resp)])"
  | (makedirs_failed) c resp v where
      "json_loads env (resp_text resp) = Some v"
      "loop_body env a tr f =
         (Inl OSError,
          tr @ [OpenRead (audio_file_path a f) (Some c), Post (the_request env a f c) (Some resp),
                MakeDirs (os_path_dirname (result_file_path a f)) True False])"
  | (open_w_failed) c resp v where
      "json_loads env (resp_text resp) = Some v"
      "loop_body env a tr f =
         (Inl OSError,
          tr @ [OpenRead (audio_file_path a f) (Some c), Post (the_request env a f c) (Some resp),
                MakeDirs (os_path_dirname (result_file_path a f)) True True,
                OpenWrite (result_file_path a f) False])"
  | (dump_failed) c resp v n where
      "json_loads env (resp_text resp) = Some v"
      "loop_body env a tr f =
         (Inl OSError,
          tr @ [OpenRead (audio_file_path a f) (Some c), Post (the_request env a f c) (Some resp),
                MakeDirs (os_path_dirname (result_file_path a f)) True True,
                OpenWrite (result_file_path a f) True,
                Dump (result_file_path a f) (json_dumps env v (Some 4)) (Some n)])"
  | (ok) c resp v where
      "json_loads env (resp_text resp) = Some v"
      "loop_body env a tr f =
         (Inr (),
          tr @ [OpenRead (audio_file_path a f) (Some c), Post (the_request env a f c) (Some resp),
                MakeDirs (os_path_dirname (result_file_path a f)) True True,
                OpenWrite (result_file_path a f) True,
                Dump (result_file_path a f) (json_dumps env v (Some 4)) None])"
proof (cases rule: sendRequest_shape[of env tr "args_host a" "args_port a" "audio_file_path a f"
                  "json_dumps env (mdata a) None"])
  case open_failed
  then show ?thesis using that(1) by (simp add: loop_body_def)
next
  case (post_failed c)
  then show ?thesis using that(2)[of c] by (simp add: loop_body_def the_request_def)
next
  case (decode_failed c resp)
  then show ?thesis using that(3)[of resp c] by (simp add: loop_body_def the_request_def)
next
  case (ok c resp v)
  note s = this
  show ?thesis
  proof (cases rule: saveResult_shape[of env
           "tr @ [OpenRead (audio_file_path a f) (Some c), Post (the_request env a f c) (Some resp)]"
           v "result_file_path a f"])
    case makedirs_failed
    with s show ?thesis using that(4)[of resp v c] by (simp add: loop_body_def the_request_def)
  next
    case open_w_failed
    with s show ?thesis using that(5)[of resp v c] by (simp add: loop_body_def the_request_def)
  next
    case (dump_failed n)
    with s show ?thesis using that(6)[of resp v c n] by (simp add: loop_body_def the_request_def)
  next
    case ok
    with s show ?thesis using that(7)[of resp v c] by (simp add: loop_body_def the_request_def)
  qed
qed

text \<open>The loop skips the entries that fail the test, and runs over a list part by part.\<close>

lemma for_loop_filter:
  "for_loop env a names tr = for_loop env a (filter is_audio_file names) tr"
  by (induction names arbitrary: tr) (auto split: prod.splits sum.splits)

lemma for_loop_append:
  "for_loop env a (xs @ ys) tr =
     (case for_loop env a xs tr of
        (Inl e, tr1) \<Rightarrow> (Inl e, tr1)
      | (Inr u, tr1) \<Rightarrow> for_loop env a ys tr1)"
  by (induction xs arbitrary: tr) (auto split: prod.splits sum.splits)

text \<open>
  What a history shows grows by one item per processed entry: if a step that succeeds
  adds \<open>g f\<close> to the observation \<open>obs\<close>, and a step that fails adds \<open>g f\<close> or nothing,
  then the loop adds a prefix of the \<open>g f\<close> of the entries that pass the test, in their
  order, and all of them when it ends without an error.
\<close>

lemma for_loop_observe:
  fixes obs :: "event list \<Rightarrow> 'x list" and g :: "string \<Rightarrow> 'x"
  assumes ok: "\<And>tr f tr'. loop_body env a tr f = (Inr (), tr') \<Longrightarrow> obs tr' = obs tr @ [g f]"
      and fail: "\<And>tr f e tr'. loop_body env a tr f = (Inl e, tr') \<Longrightarrow>
                   obs tr' = obs tr \<or> obs tr' = obs tr @ [g f]"
      and run: "for_loop env a names tr = (r, tr')"
  shows "\<exists>ys. obs tr' = obs tr @ ys \<and> prefix ys (map g (filter is_audio_file names)) \<and>
              (r = Inr () \<longrightarrow> ys = map g (filter is_audio_file names))"
  using run
proof (induction names arbitrary: tr)
  case Nil
  then show ?case by auto
next
  case (Cons f rest)
  show ?case
  proof (cases "is_audio_file f")
    case False
    with Cons.prems have "for_loop env a rest tr = (r, tr')" by simp
    from Cons.IH[OF this] False show ?thesis by simp
  next
    case True
    note cand = this
    obtain r1 t where step: "loop_body env a tr f = (r1, t)" by (cases "loop_body env a tr f")
    show ?thesis
    proof (cases r1)
      case (Inl e)
      with step cand Cons.prems have eq: "r = Inl e" "tr' = t" by auto
      from fail[of tr f e t] step Inl have "obs t = obs tr \<or> obs t = obs tr @ [g f]" by simp
      then show ?thesis
      proof
        assume "obs t = obs tr"
        with eq cand show ?thesis by (intro exI[of _ "[]"]) simp
      next
        assume "obs t = obs tr @ [g f]"
        with eq cand show ?thesis by (intro exI[of _ "[g f]"]) simp
      qed
    next
      case (Inr u)
      with step cand Cons.prems have rest: "for_loop env a rest t = (r, tr')" by simp
      from ok[of tr f t] step Inr have o: "obs t = obs tr @ [g f]" by simp
      from Cons.IH[OF rest] obtain ys where
        ys: "obs tr' = obs t @ ys" "prefix ys (map g (filter is_audio_file rest))"
            "r = Inr () \<longrightarrow> ys = map g (filter is_audio_file rest)" by blast
      with o cand show ?thesis by (intro exI[of _ "g f # ys"]) simp
    qed
  qed
qed

text \<open>A property of histories that every step keeps holds after the loop.\<close>

lemma for_loop_invariant:
  assumes step: "\<And>tr f. P tr \<Longrightarrow> is_audio_file f \<Longrightarrow> f \<in> set names \<Longrightarrow>
                   P (snd (loop_body env a tr f))"
      and init: "P tr"
  shows "P (snd (for_loop env a names tr))"
  using assms
proof (induction names arbitrary: tr)
  case Nil
  then show ?case by simp
next
  case (Cons f rest)
  show ?case
  proof (cases "is_audio_file f")
    case False
    have "P (snd (for_loop env a rest tr))"
      by (rule Cons.IH) (auto intro: Cons.prems)
    with False show ?thesis by simp
  next
    case True
    obtain r1 t where s: "loop_body env a tr f = (r1, t)" by (cases "loop_body env a tr f")
    have Pt: "P t" using Cons.prems(1)[of tr f] Cons.prems(2) True s by simp
    show ?thesis
    proof (cases r1)
      case (Inl e)
      with s True Pt show ?thesis by simp
    next
      case (Inr u)
      have "P (snd (for_loop env a rest t))"
        by (rule Cons.IH) (auto intro: Cons.prems Pt)
      with s True Inr show ?thesis by simp
    qed
  qed
qed

text \<open>The run, once the listing is known.\<close>

lemma main_listed:
  assumes "os_listdir env [] (input_directory (parse_args argv)) = Some names"
  shows "main env argv =
           for_loop env (parse_args argv) names
             [ListDir (input_directory (parse_args argv)) (Some names)]"
  using assms by (simp add: main_def Let_def)


text \<open>The two concrete runs, evaluated.\<close>

lemmas path_eval =
  is_audio_file_def endswith_def startswith_def os_path_join_def os_path_dirname_def
  os_path_basename_def os_path_splitext_def rfind_def rstrip_def slice_def splitext_loop.simps
  result_file_name_def result_file_path_def audio_file_path_def input_directory_def
  output_directory_def

lemmas run_eval =
  main_def loop_body_def sendRequest_def saveResult_def parse_args_def mdata_def
  str_int_def str_nat.simps Let_def

lemma example_run: "main example_env no_options = (Inr (), example_trace)"
  by (simp add: run_eval path_eval example_env_def example_listing_def no_options_def
        example_trace_def)

lemma failing_run: "main failing_env no_options = (Inl OSError, failing_trace)"
  by (simp add: run_eval path_eval failing_env_def example_env_def example_listing_def
        no_options_def failing_trace_def trace_before_failure_def)

lemma failing_run_before:
  "for_loop failing_env (parse_args no_options) [''b.wav'', ''notes.txt'', ''a.mp3'']
     [ListDir ''example/'' (Some example_listing)] = (Inr (), trace_before_failure)"
  by (simp add: run_eval path_eval failing_env_def example_env_def example_listing_def
        no_options_def trace_before_failure_def)

lemma failing_run_step:
  "loop_body failing_env (parse_args no_options) trace_before_failure ''a.wav'' =
     (Inl OSError, failing_trace)"
  by (simp add: run_eval path_eval failing_env_def example_env_def example_listing_def
        no_options_def failing_trace_def trace_before_failure_def)


text \<open>What one step adds to each observation of the history.\<close>

lemma opened_step:
  "loop_body env a tr f = (r, tr') \<Longrightarrow> opened tr' = opened tr @ [audio_file_path a f]"
  by (cases rule: loop_body_shape[of env a tr f]) auto

lemma listed_step:
  "loop_body env a tr f = (r, tr') \<Longrightarrow> listed tr' = listed tr"
  by (cases rule: loop_body_shape[of env a tr f]) auto

lemma post_names_step_ok:
  "loop_body env a tr f = (Inr (), tr') \<Longrightarrow>
     map (fst \<circ> req_audio) (posts tr') =
     map (fst \<circ> req_audio) (posts tr) @ [os_path_basename (audio_file_path a f)]"
  by (cases rule: loop_body_shape[of env a tr f]) (auto simp: the_request_def)

lemma post_names_step_fail:
  "loop_body env a tr f = (Inl e, tr') \<Longrightarrow>
     map (fst \<circ> req_audio) (posts tr') = map (fst \<circ> req_audio) (posts tr) \<or>
     map (fst \<circ> req_audio) (posts tr') =
     map (fst \<circ> req_audio) (posts tr) @ [os_path_basename (audio_file_path a f)]"
  by (cases rule: loop_body_shape[of env a tr f]) (auto simp: the_request_def)

lemma created_step_ok:
  "loop_body env a tr f = (Inr (), tr') \<Longrightarrow> created tr' = created tr @ [result_file_path a f]"
  by (cases rule: loop_body_shape[of env a tr f]) auto

lemma created_step_fail:
  "loop_body env a tr f = (Inl e, tr') \<Longrightarrow>
     created tr' = created tr \<or> created tr' = created tr @ [result_file_path a f]"
  by (cases rule: loop_body_shape[of env a tr f]) auto

lemma dumped_step_ok:
  "loop_body env a tr f = (Inr (), tr') \<Longrightarrow>
     map fst (dumped tr') = map fst (dumped tr) @ [result_file_path a f]"
  by (cases rule: loop_body_shape[of env a tr f]) auto

lemma dumped_step_fail:
  "loop_body env a tr f = (Inl e, tr') \<Longrightarrow>
     map fst (dumped tr') = map fst (dumped tr) \<or>
     map fst (dumped tr') = map fst (dumped tr) @ [result_file_path a f]"
  by (cases rule: loop_body_shape[of env a tr f]) auto

lemma post_meta_step:
  "loop_body env a tr f = (r, tr') \<Longrightarrow> q \<in> set (posts tr') \<Longrightarrow>
     q \<in> set (posts tr) \<or> req_meta q = json_dumps env (mdata a) None"
  by (cases rule: loop_body_shape[of env a tr f]) (auto simp: the_request_def)

lemma disk_step:
  "loop_body env a tr f = (r, tr') \<Longrightarrow> p \<noteq> result_file_path a f \<Longrightarrow> disk tr' p = disk tr p"
  by (cases rule: loop_body_shape[of env a tr f]) (auto simp: disk_append write_effect_def)

section \<open>The claims\<close>




text \<open>
  C10. The entries \<^verbatim>\<open>.wav\<close> and \<^verbatim>\<open>.mp3\<close> pass the test of the loop, \<open>splitext\<close> finds no
  extension in them, and their result files are \<^verbatim>\<open>.wav.BirdNET.results.json\<close> and
  \<^verbatim>\<open>.mp3.BirdNET.results.json\<close>.
\<close>

theorem leading_dot_name_keeps_extension:
  "is_audio_file ''.wav'' \<and> is_audio_file ''.mp3'' \<and>
   os_path_splitext ''.wav'' = (''.wav'', '''') \<and>
   os_path_splitext ''.mp3'' = (''.mp3'', '''') \<and>
   result_file_name ''.wav'' = ''.wav.BirdNET.results.json'' \<and>
   result_file_name ''.mp3'' = ''.mp3.BirdNET.results.json''"
  by (simp add: path_eval)

end
